theory Spec2Isabelle
  imports Main "HOL-Library.AList"
begin

section \<open>Strings\<close>

text \<open>
  A Python \<open>str\<close> is a sequence of code points. The model uses \<^typ>\<open>string\<close>, whose
  characters are the code points below 256; on that range \<open>isspace\<close> and \<open>lower\<close> are
  Python's \<open>str.isspace\<close> and \<open>str.lower\<close>. The byte order mark U+FEFF tested at the top
  of \<open>parse_csv_data\<close> lies outside this range, so that test is false for every modelled
  text and the model starts from the rows that \<open>csv.reader\<close> returns.
\<close>

definition isspace :: "char \<Rightarrow> bool" where
  "isspace c = (c \<in> set [CHR 0x09, CHR 0x0A, CHR 0x0B, CHR 0x0C, CHR 0x0D,
                          CHR 0x1C, CHR 0x1D, CHR 0x1E, CHR 0x1F, CHR 0x20,
                          CHR 0x85, CHR 0xA0])"

text \<open>\<open>s.strip()\<close>: leading and trailing whitespace removed.\<close>

definition strip :: "string \<Rightarrow> string" where
  "strip s = rev (dropWhile isspace (rev (dropWhile isspace s)))"

definition lower_char :: "char \<Rightarrow> char" where
  "lower_char c =
     (let n = (of_char c :: nat)
      in if (65 \<le> n \<and> n \<le> 90) \<or> (192 \<le> n \<and> n \<le> 222 \<and> n \<noteq> 215)
         then char_of (n + 32) else c)"

definition lower :: "string \<Rightarrow> string" where
  "lower s = map lower_char s"

text \<open>
  \<open>s.replace(old, new)\<close> for a non-empty \<open>old\<close>: the occurrences of \<open>old\<close> are replaced
  from left to right, without overlap.
\<close>

function replace :: "string \<Rightarrow> string \<Rightarrow> string \<Rightarrow> string" where
  "replace old new [] = []"
| "replace old new (c # cs) =
     (if old \<noteq> [] \<and> take (length old) (c # cs) = old
      then new @ replace old new (drop (length old) (c # cs))
      else c # replace old new cs)"
  by pat_completeness auto
termination
  by (relation "measure (\<lambda>(old, new, s). length s)") (auto simp: neq_Nil_conv)

section \<open>Configuration\<close>

text \<open>
  \<open>LanguageConfig\<close>; its display \<open>name\<close> (used only in printed reports) is left out.
\<close>

record language_config =
  code :: string
  file_name :: string

definition ARB_DIR :: string where
  "ARB_DIR = ''lib/l10n''"

text \<open>The dict \<open>LANGUAGES\<close>, in its declared order.\<close>

definition LANGUAGES :: "(string \<times> language_config) list" where
  "LANGUAGES =
     [(''zh'', \<lparr>code = ''zh'', file_name = ''intl_zh.arb''\<rparr>),
      (''en'', \<lparr>code = ''en'', file_name = ''intl_en.arb''\<rparr>),
      (''ja'', \<lparr>code = ''ja'', file_name = ''intl_ja.arb''\<rparr>),
      (''ko'', \<lparr>code = ''ko'', file_name = ''intl_ko.arb''\<rparr>),
      (''tr'', \<lparr>code = ''tr'', file_name = ''intl_tr.arb''\<rparr>)]"

section \<open>Parsing the table\<close>

text \<open>
  The three \<open>ValueError\<close>s of \<open>parse_csv_data\<close>, in the order they are raised (fewer than
  two rows, no \<open>key\<close> column, no language column), and the failure of a write on an
  output path (\<open>open\<close>, \<open>json.dump\<close> or the close raising).
\<close>

datatype error =
    MalformedTableError
  | MissingKeyColumnError
  | NoMatchingLanguageColumnsError
  | WriteFailure string

text \<open>
  A Python dict is an association list in insertion order; \<open>d[k] = v\<close> is
  \<^const>\<open>AList.update\<close> (an existing key keeps its place), \<open>k in d\<close> and \<open>d[k]\<close> are
  \<^const>\<open>map_of\<close>.
\<close>

type_synonym translation_set = "(string \<times> string) list"
type_synonym i18n_data = "(string \<times> translation_set) list"

text \<open>\<open>headers.index('key')\<close>; called only after \<open>'key' in headers\<close> has been checked.\<close>

fun index_of :: "'a \<Rightarrow> 'a list \<Rightarrow> nat" where
  "index_of x [] = 0"
| "index_of x (y # ys) = (if y = x then 0 else Suc (index_of x ys))"

text \<open>The loop over \<open>enumerate(headers)\<close> that fills \<open>language_columns\<close>.\<close>

fun language_columns_loop :: "(nat \<times> string) list \<Rightarrow> (string \<times> nat) list \<Rightarrow> (string \<times> nat) list" where
  "language_columns_loop [] language_columns = language_columns"
| "language_columns_loop ((i, header) # rest) language_columns =
     (if lower header = ''key'' then language_columns_loop rest language_columns
      else if lower header \<in> set (map fst LANGUAGES)
      then language_columns_loop rest (AList.update (lower header) i language_columns)
      else language_columns_loop rest language_columns)"

text \<open>The two replacements applied to a trimmed cell.\<close>

definition clean_value :: "string \<Rightarrow> string" where
  "clean_value cell =
     replace [CHR 0x5C, CHR 0x22] [CHR 0x22]
       (replace [CHR 0x5C, CHR ''n''] [CHR 0x0A] (strip cell))"

text \<open>The inner loop over \<open>language_columns.items()\<close>, filling \<open>result[key]\<close>.\<close>

fun row_translations :: "(string \<times> nat) list \<Rightarrow> string list \<Rightarrow> translation_set \<Rightarrow> translation_set" where
  "row_translations [] row acc = acc"
| "row_translations ((lang_code, col_index) # rest) row acc =
     (if col_index < length row
      then row_translations rest row (AList.update lang_code (clean_value (row ! col_index)) acc)
      else row_translations rest row acc)"

text \<open>The loop over \<open>rows[1:]\<close>.\<close>

fun process_rows :: "nat \<Rightarrow> (string \<times> nat) list \<Rightarrow> string list list \<Rightarrow> i18n_data \<Rightarrow> i18n_data" where
  "process_rows key_index language_columns [] result = result"
| "process_rows key_index language_columns (row # rows) result =
     (if row = [] \<or> length row \<le> key_index
      then process_rows key_index language_columns rows result
      else if strip (row ! key_index) = []
      then process_rows key_index language_columns rows result
      else process_rows key_index language_columns rows
             (AList.update (strip (row ! key_index))
                (row_translations language_columns row []) result))"

text \<open>The header cells kept by the list comprehension: trimmed, empty ones dropped.\<close>

definition headers_of :: "string list \<Rightarrow> string list" where
  "headers_of row0 = map strip (filter (\<lambda>h. strip h \<noteq> []) row0)"

text \<open>\<open>parse_csv_data\<close>, from the list \<open>rows\<close> on.\<close>

definition parse_csv_data :: "string list list \<Rightarrow> error + i18n_data" where
  "parse_csv_data rows =
     (if length rows < 2 then Inl MalformedTableError
      else let headers = headers_of (hd rows)
           in if ''key'' \<notin> set headers then Inl MissingKeyColumnError
              else let key_index = index_of ''key'' headers;
                       language_columns = language_columns_loop (enumerate 0 headers) []
                   in if language_columns = [] then Inl NoMatchingLanguageColumnsError
                      else Inr (process_rows key_index language_columns (tl rows) []))"

section \<open>Writing the documents\<close>

text \<open>
  The loop over \<open>i18n_data.items()\<close> that fills \<open>lang_data\<close> for one language. The test
  \<open>translations[lang_code]\<close> is Python's truth value of a string: it is not empty.
\<close>

fun lang_data_loop :: "string \<Rightarrow> i18n_data \<Rightarrow> translation_set \<Rightarrow> translation_set" where
  "lang_data_loop lang_code [] lang_data = lang_data"
| "lang_data_loop lang_code ((key, translations) # rest) lang_data =
     (case map_of translations lang_code of
        None \<Rightarrow> lang_data_loop lang_code rest lang_data
      | Some v \<Rightarrow>
          if v \<noteq> [] then lang_data_loop lang_code rest (AList.update key v lang_data)
          else lang_data_loop lang_code rest lang_data)"

definition lang_document :: "string \<Rightarrow> i18n_data \<Rightarrow> translation_set" where
  "lang_document lang_code i18n_data = lang_data_loop lang_code i18n_data []"

text \<open>\<open>os.path.join(ARB_DIR, lang_config.file_name)\<close>, with the POSIX separator.\<close>

definition file_path :: "language_config \<Rightarrow> string" where
  "file_path lang_config = ARB_DIR @ ''/'' @ file_name lang_config"

text \<open>
  What a file holds after \<open>open(path, 'w')\<close>: \<open>Complete d\<close> when \<open>json.dump\<close> wrote the
  dict \<open>d\<close> and the file was closed (its text is a function of \<open>d\<close>, its pairs and their
  order); \<open>Incomplete d\<close> when the file was truncated by \<open>open\<close> and \<open>json.dump\<close> or the
  close at the end of the \<open>with\<close> block raised: it holds some part of the text of \<open>d\<close>,
  possibly none.
\<close>

datatype file_content = Complete translation_set | Incomplete translation_set

text \<open>
  The output side of the file system: \<open>files\<close> maps a path to what the file holds,
  \<open>opened\<close> lists the paths on which \<open>open(path, 'w')\<close> was called, in order.
\<close>

record out_state =
  files :: "string \<rightharpoonup> file_content"
  opened :: "string list"

text \<open>
  The loop of \<open>generate_json_files\<close> over \<open>LANGUAGES.items()\<close>. A write can fail in two
  places: \<open>open_fails\<close> is the set of paths on which \<open>open\<close> raises, leaving the file as
  it was; \<open>dump_fails\<close> is the set of paths on which \<open>open\<close> succeeds, truncating the
  file, and \<open>json.dump\<close> or the close raises. Nothing in the loop catches the exception,
  so it ends the loop.
\<close>

fun generate_loop ::
  "string set \<Rightarrow> string set \<Rightarrow> i18n_data \<Rightarrow> (string \<times> language_config) list \<Rightarrow> out_state
     \<Rightarrow> (error + unit) \<times> out_state" where
  "generate_loop open_fails dump_fails i18n_data [] st = (Inr (), st)"
| "generate_loop open_fails dump_fails i18n_data ((lang_code, lang_config) # rest) st =
     (if file_path lang_config \<in> open_fails
      then (Inl (WriteFailure (file_path lang_config)),
            st\<lparr>opened := opened st @ [file_path lang_config]\<rparr>)
      else if file_path lang_config \<in> dump_fails
      then (Inl (WriteFailure (file_path lang_config)),
            st\<lparr>opened := opened st @ [file_path lang_config],
               files := (files st)(file_path lang_config \<mapsto>
                          Incomplete (lang_document lang_code i18n_data))\<rparr>)
      else generate_loop open_fails dump_fails i18n_data rest
             (st\<lparr>opened := opened st @ [file_path lang_config],
                 files := (files st)(file_path lang_config \<mapsto>
                            Complete (lang_document lang_code i18n_data))\<rparr>))"

definition generate_json_files ::
  "string set \<Rightarrow> string set \<Rightarrow> i18n_data \<Rightarrow> out_state \<Rightarrow> (error + unit) \<times> out_state" where
  "generate_json_files open_fails dump_fails i18n_data st =
     generate_loop open_fails dump_fails i18n_data LANGUAGES st"

text \<open>
  \<open>main\<close>, from the rows of the CSV file on: the exit status and the output state.
  \<open>validate_data\<close> only prints. Any exception ends the run with status 1. The directory
  that the constructor of the generator creates is taken to exist.
\<close>

definition main ::
  "string set \<Rightarrow> string set \<Rightarrow> string list list \<Rightarrow> out_state \<Rightarrow> nat \<times> out_state" where
  "main open_fails dump_fails rows st =
     (case parse_csv_data rows of
        Inl e \<Rightarrow> (1, st)
      | Inr i18n_data \<Rightarrow>
          (case generate_json_files open_fails dump_fails i18n_data st of
             (Inl e, st') \<Rightarrow> (1, st')
           | (Inr u, st') \<Rightarrow> (0, st')))"

section \<open>Exporting the sheet\<close>

definition is_empty_row :: "string list \<Rightarrow> bool" where
  "is_empty_row r = list_all (\<lambda>c. strip c = []) r"

text \<open>The \<open>while\<close> loop of \<open>write_csv\<close> that pops empty rows off the end.\<close>

function pop_trailing :: "string list list \<Rightarrow> string list list" where
  "pop_trailing trimmed =
     (if trimmed \<noteq> [] \<and> is_empty_row (last trimmed) then pop_trailing (butlast trimmed)
      else trimmed)"
  by pat_completeness auto
termination
  by (relation "measure length") auto

declare pop_trailing.simps [simp del]

text \<open>\<open>write_csv\<close>: the rows handed to the CSV writer.\<close>

definition write_csv :: "string list list \<Rightarrow> string list list" where
  "write_csv rows = pop_trailing rows"

section \<open>Notions used in the statements\<close>

text \<open>The key a data row contributes, if it is not skipped by the loop over the rows.\<close>

definition row_key :: "nat \<Rightarrow> string list \<Rightarrow> string option" where
  "row_key key_index row =
     (if row = [] \<or> length row \<le> key_index then None
      else if strip (row ! key_index) = [] then None
      else Some (strip (row ! key_index)))"

text \<open>The key index and the language columns that \<open>parse_csv_data\<close> computes from a header row.\<close>

definition header_key_index :: "string list \<Rightarrow> nat" where
  "header_key_index row0 = index_of ''key'' (headers_of row0)"

definition header_language_columns :: "string list \<Rightarrow> (string \<times> nat) list" where
  "header_language_columns row0 = language_columns_loop (enumerate 0 (headers_of row0)) []"

definition empty_state :: out_state where
  "empty_state = \<lparr>files = Map.empty, opened = []\<rparr>"

section \<open>Facts about the loops of the parser\<close>

lemma update_mem:
  "(a, b) \<in> set (AList.update k v al) \<Longrightarrow> (a, b) = (k, v) \<or> (a, b) \<in> set al"
  by (induction al) (auto split: if_splits)

lemma process_rows_append:
  "process_rows ki lc (xs @ ys) res = process_rows ki lc ys (process_rows ki lc xs res)"
  by (induction xs arbitrary: res) auto

lemma process_rows_skip:
  "row_key ki r = None \<Longrightarrow> process_rows ki lc (r # rows) res = process_rows ki lc rows res"
  by (auto simp: row_key_def split: if_splits)

lemma process_rows_keep:
  "row_key ki r = Some k \<Longrightarrow>
   process_rows ki lc (r # rows) res =
   process_rows ki lc rows (AList.update k (row_translations lc r []) res)"
  by (auto simp: row_key_def split: if_splits)

lemma process_rows_other:
  "\<forall>r \<in> set rows. row_key ki r \<noteq> Some k \<Longrightarrow>
   map_of (process_rows ki lc rows res) k = map_of res k"
proof (induction rows arbitrary: res)
  case Nil
  show ?case by simp
next
  case (Cons r rows)
  show ?case
  proof (cases "row_key ki r")
    case None
    with Cons show ?thesis by (simp only: process_rows_skip) simp
  next
    case (Some k')
    with Cons.prems have "k' \<noteq> k" by auto
    with Some Cons show ?thesis by (simp only: process_rows_keep) (simp add: update_conv')
  qed
qed

lemma process_rows_last:
  assumes "row_key ki r = Some k" and "\<forall>r' \<in> set after. row_key ki r' \<noteq> Some k"
  shows "map_of (process_rows ki lc (before @ r # after) res) k = Some (row_translations lc r [])"
  using assms by (simp add: process_rows_append process_rows_keep process_rows_other update_conv'
      del: process_rows.simps)

lemma distinct_process_rows:
  "distinct (map fst res) \<Longrightarrow> distinct (map fst (process_rows ki lc rows res))"
  by (induction rows arbitrary: res) (auto simp: distinct_update)

lemma process_rows_mem:
  "(k, tr) \<in> set (process_rows ki lc rows res) \<Longrightarrow>
   (k, tr) \<in> set res \<or> (\<exists>r \<in> set rows. row_key ki r = Some k \<and> tr = row_translations lc r [])"
proof (induction rows arbitrary: res)
  case Nil
  then show ?case by simp
next
  case (Cons r rows)
  show ?case
  proof (cases "row_key ki r")
    case None
    with Cons show ?thesis by (simp only: process_rows_skip) auto
  next
    case (Some k')
    with Cons.prems have "(k, tr) \<in> set (process_rows ki lc rows (AList.update k' (row_translations lc r []) res))"
      by (simp only: process_rows_keep)
    from Cons.IH [OF this] show ?thesis using Some by (auto dest: update_mem)
  qed
qed

lemma distinct_language_columns_loop:
  "distinct (map fst acc) \<Longrightarrow> distinct (map fst (language_columns_loop xs acc))"
  by (induction xs acc rule: language_columns_loop.induct) (auto simp: distinct_update)

lemma language_columns_loop_keys:
  "x \<in> fst ` set (language_columns_loop xs acc) \<Longrightarrow> x \<in> fst ` set acc \<or> x \<in> fst ` set LANGUAGES"
proof (induction xs acc rule: language_columns_loop.induct)
  case (1 language_columns)
  then show ?case by simp
next
  case (2 i header rest language_columns)
  show ?case
  proof (cases "lower header \<noteq> ''key'' \<and> lower header \<in> set (map fst LANGUAGES)")
    case True
    with 2 have "x \<in> fst ` set (AList.update (lower header) i language_columns) \<or> x \<in> fst ` set LANGUAGES"
      by simp
    with True show ?thesis by (auto simp: dom_update)
  next
    case False
    with 2 show ?thesis by (auto split: if_splits)
  qed
qed

lemma row_translations_keys:
  "fst ` set (row_translations lc row acc) \<subseteq> fst ` set acc \<union> fst ` set lc"
  by (induction lc row acc rule: row_translations.induct) (auto simp: dom_update)

lemma row_translations_lookup:
  "distinct (map fst lc) \<Longrightarrow>
   map_of (row_translations lc row acc) lang =
     (case map_of lc lang of
        None \<Rightarrow> map_of acc lang
      | Some col \<Rightarrow> if col < length row then Some (clean_value (row ! col)) else map_of acc lang)"
proof (induction lc row acc rule: row_translations.induct)
  case (1 row acc)
  show ?case by simp
next
  case (2 lang_code col_index rest row acc)
  then have d: "distinct (map fst rest)" and n: "map_of rest lang_code = None"
    by (auto simp: map_of_eq_None_iff)
  show ?case
    using 2 d n by (auto simp: update_conv' split: option.splits)
qed

lemma parse_csv_data_Inr:
  "parse_csv_data rows = Inr data \<longleftrightarrow>
     2 \<le> length rows \<and> ''key'' \<in> set (headers_of (hd rows)) \<and>
     header_language_columns (hd rows) \<noteq> [] \<and>
     data = process_rows (header_key_index (hd rows)) (header_language_columns (hd rows)) (tl rows) []"
  by (auto simp: parse_csv_data_def Let_def header_key_index_def header_language_columns_def)

lemma lang_data_loop_mem:
  "(k, v) \<in> set (lang_data_loop lang data acc) \<Longrightarrow>
   (k, v) \<in> set acc \<or> (\<exists>tr. (k, tr) \<in> set data \<and> map_of tr lang = Some v \<and> v \<noteq> [])"
  by (induction lang data acc rule: lang_data_loop.induct)
     (auto split: option.splits if_splits dest: update_mem)

lemma lang_data_loop_lookup:
  "distinct (map fst data) \<Longrightarrow>
   map_of (lang_data_loop lang data acc) k =
     (case map_of data k of
        None \<Rightarrow> map_of acc k
      | Some tr \<Rightarrow>
          (case map_of tr lang of
             None \<Rightarrow> map_of acc k
           | Some v \<Rightarrow> if v \<noteq> [] then Some v else map_of acc k))"
proof (induction lang data acc rule: lang_data_loop.induct)
  case (1 lang_code lang_data)
  show ?case by simp
next
  case (2 lang_code key trs rest lang_data)
  then have d: "distinct (map fst rest)" and n: "map_of rest key = None"
    by (auto simp: map_of_eq_None_iff)
  show ?case
    using 2 d n by (auto simp: update_conv' split: option.splits)
qed

lemma row_translations_mem:
  "(l, v) \<in> set (row_translations lc row acc) \<Longrightarrow>
   (l, v) \<in> set acc \<or> (\<exists>c. (l, c) \<in> set lc \<and> c < length row \<and> v = clean_value (row ! c))"
  by (induction lc row acc rule: row_translations.induct)
     (auto split: if_splits dest: update_mem)

lemma distinct_header_language_columns:
  "distinct (map fst (header_language_columns header))"
  by (simp add: header_language_columns_def distinct_language_columns_loop)

lemma header_language_columns_declared:
  "(lang, col) \<in> set (header_language_columns header) \<Longrightarrow> lang \<in> fst ` set LANGUAGES"
  using language_columns_loop_keys [of lang "enumerate 0 (headers_of header)" "[]"]
  by (force simp: header_language_columns_def)

section \<open>Facts about the loop that writes the documents\<close>

lemma generate_loop_append:
  "generate_loop Op Du data (xs @ ys) st =
     (case generate_loop Op Du data xs st of
        (Inl e, st') \<Rightarrow> (Inl e, st')
      | (Inr u, st') \<Rightarrow> generate_loop Op Du data ys st')"
  by (induction xs arbitrary: st) auto

lemma generate_loop_ok:
  "\<forall>(c, cfg) \<in> set ls. file_path cfg \<notin> Op \<union> Du \<Longrightarrow>
   fst (generate_loop Op Du data ls st) = Inr () \<and>
   opened (snd (generate_loop Op Du data ls st)) = opened st @ map (file_path \<circ> snd) ls"
  by (induction ls arbitrary: st) auto

lemma generate_loop_other:
  "p \<notin> (file_path \<circ> snd) ` set ls \<Longrightarrow> files (snd (generate_loop Op Du data ls st)) p = files st p"
  by (induction ls arbitrary: st) auto

lemma generate_loop_written:
  "\<forall>(c, cfg) \<in> set ls. file_path cfg \<notin> Op \<union> Du \<Longrightarrow> distinct (map (file_path \<circ> snd) ls) \<Longrightarrow>
   (c, cfg) \<in> set ls \<Longrightarrow>
   files (snd (generate_loop Op Du data ls st)) (file_path cfg) = Some (Complete (lang_document c data))"
proof (induction ls arbitrary: st)
  case Nil
  then show ?case by simp
next
  case (Cons x ls)
  obtain c' cfg' where x: "x = (c', cfg')" by (cases x)
  show ?case
  proof (cases "(c, cfg) = x")
    case True
    with Cons.prems x have "file_path cfg \<notin> (file_path \<circ> snd) ` set ls"
      "file_path cfg \<notin> Op" "file_path cfg \<notin> Du"
      by auto
    with True x show ?thesis by (simp add: generate_loop_other)
  next
    case False
    with Cons x show ?thesis by auto
  qed
qed

lemma generate_loop_files:
  "files (snd (generate_loop Op Du data ls st)) p = Some fc \<Longrightarrow>
   files st p = Some fc \<or>
   (\<exists>(c, cfg) \<in> set ls. p = file_path cfg \<and>
      (fc = Complete (lang_document c data) \<or> fc = Incomplete (lang_document c data)))"
proof (induction ls arbitrary: st)
  case Nil
  then show ?case by simp
next
  case (Cons x ls)
  obtain c' cfg' where x: "x = (c', cfg')" by (cases x)
  consider (open_fails) "file_path cfg' \<in> Op"
    | (dump_fails) "file_path cfg' \<notin> Op" "file_path cfg' \<in> Du"
    | (writes) "file_path cfg' \<notin> Op" "file_path cfg' \<notin> Du"
    by blast
  then show ?case
  proof cases
    case open_fails
    with Cons.prems x show ?thesis by simp
  next
    case dump_fails
    with Cons.prems x show ?thesis by (auto split: if_splits)
  next
    case writes
    with Cons.prems x have
      "files (snd (generate_loop Op Du data ls
          (st\<lparr>opened := opened st @ [file_path cfg'],
              files := (files st)(file_path cfg' \<mapsto> Complete (lang_document c' data))\<rparr>))) p = Some fc"
      by simp
    from Cons.IH [OF this] x show ?thesis by (auto split: if_splits)
  qed
qed

lemma generate_loop_fail:
  assumes "file_path cfg \<in> Op \<union> Du" and "\<forall>(c', g) \<in> set before. file_path g \<notin> Op \<union> Du"
  shows "fst (generate_loop Op Du data (before @ (c, cfg) # after) st) = Inl (WriteFailure (file_path cfg))"
    and "opened (snd (generate_loop Op Du data (before @ (c, cfg) # after) st)) =
           opened st @ map (file_path \<circ> snd) before @ [file_path cfg]"
    and "files (snd (generate_loop Op Du data (before @ (c, cfg) # after) st)) =
           (if file_path cfg \<in> Op then files (snd (generate_loop Op Du data before st))
            else (files (snd (generate_loop Op Du data before st)))
                   (file_path cfg \<mapsto> Incomplete (lang_document c data)))"
  using assms generate_loop_ok [of before Op Du data st]
  by (auto simp: generate_loop_append split: prod.splits sum.splits)

lemma distinct_paths: "distinct (map (file_path \<circ> snd) LANGUAGES)"
  by (simp add: LANGUAGES_def file_path_def)

section \<open>Facts about empty rows\<close>

lemma is_empty_row_key: "is_empty_row r \<Longrightarrow> row_key ki r = None"
  by (auto simp: is_empty_row_def row_key_def list_all_iff)

lemma process_rows_blank:
  "list_all is_empty_row blanks \<Longrightarrow> process_rows ki lc blanks res = res"
proof (induction blanks)
  case Nil
  show ?case by simp
next
  case (Cons r blanks)
  then have "row_key ki r = None" by (simp add: is_empty_row_key)
  with Cons show ?case by (simp only: process_rows_skip) simp
qed

lemma parse_blank_suffix:
  assumes "2 \<le> length rows" and "list_all is_empty_row blanks"
  shows "parse_csv_data (rows @ blanks) = parse_csv_data rows"
proof -
  from assms(1) have ne: "rows \<noteq> []" by auto
  then have "hd (rows @ blanks) = hd rows" "tl (rows @ blanks) = tl rows @ blanks" by simp_all
  with assms show ?thesis
    by (simp add: parse_csv_data_def Let_def process_rows_append process_rows_blank)
qed

lemma pop_trailing_decomp:
  "\<exists>blanks. rows = pop_trailing rows @ blanks \<and> list_all is_empty_row blanks"
proof (induction rows rule: pop_trailing.induct)
  case (1 trimmed)
  show ?case
  proof (cases "trimmed \<noteq> [] \<and> is_empty_row (last trimmed)")
    case True
    with 1 obtain blanks where b: "butlast trimmed = pop_trailing (butlast trimmed) @ blanks"
      and e: "list_all is_empty_row blanks" by blast
    from True have "trimmed = butlast trimmed @ [last trimmed]" by simp
    with b have "trimmed = pop_trailing (butlast trimmed) @ (blanks @ [last trimmed])"
      by (metis append_assoc)
    moreover from True have "pop_trailing trimmed = pop_trailing (butlast trimmed)"
      by (subst pop_trailing.simps) simp
    moreover from e True have "list_all is_empty_row (blanks @ [last trimmed])" by simp
    ultimately show ?thesis by metis
  next
    case False
    then have "pop_trailing trimmed = trimmed" by (subst pop_trailing.simps) auto
    then show ?thesis by (intro exI [of _ "[]"]) simp
  qed
qed

lemma pop_trailing_last:
  "pop_trailing rows = [] \<or> \<not> is_empty_row (last (pop_trailing rows))"
proof (induction rows rule: pop_trailing.induct)
  case (1 trimmed)
  show ?case
  proof (cases "trimmed \<noteq> [] \<and> is_empty_row (last trimmed)")
    case True
    then have "pop_trailing trimmed = pop_trailing (butlast trimmed)"
      by (subst pop_trailing.simps) simp
    with 1 True show ?thesis by simp
  next
    case False
    then have "pop_trailing trimmed = trimmed" by (subst pop_trailing.simps) auto
    with False show ?thesis by auto
  qed
qed

section \<open>Evaluation on concrete tables\<close>

lemmas eval_defs =
  parse_csv_data_def headers_of_def strip_def isspace_def lower_def lower_char_def
  LANGUAGES_def clean_value_def row_key_def header_key_index_def header_language_columns_def

lemmas emit_defs =
  generate_json_files_def main_def lang_document_def file_path_def ARB_DIR_def empty_state_def

section \<open>The key column\<close>

text \<open>
  C1. The claim: a header cell whose trimmed text equals \<open>key\<close> in any letter case is
  enough for \<open>parse_csv_data\<close> not to raise the missing-key error. The code tests
  \<open>'key' not in headers\<close> on the trimmed cells as they are spelt, so the error is raised
  exactly when the table has two rows or more and no trimmed header cell is the lower-case
  text \<open>key\<close>: the headers \<open>Key\<close> and \<open>KEY\<close> are refused, although the loop over the
  headers a few lines further compares \<open>header.lower()\<close> with \<open>key\<close>.
\<close>

theorem key_header_is_case_sensitive:
  "(parse_csv_data rows = Inl MissingKeyColumnError \<longleftrightarrow>
      2 \<le> length rows \<and> ''key'' \<notin> strip ` set (hd rows)) \<and>
   parse_csv_data [[''Key'', ''en''], [''a'', ''1'']] = Inl MissingKeyColumnError \<and>
   parse_csv_data [[''KEY'', ''en''], [''a'', ''1'']] = Inl MissingKeyColumnError \<and>
   parse_csv_data [[''key'', ''en''], [''a'', ''1'']] = Inr [(''a'', [(''en'', ''1'')])]"
proof -
  have "set (headers_of (hd rows)) = strip ` set (hd rows) - {[]}"
    by (auto simp: headers_of_def)
  then have "parse_csv_data rows = Inl MissingKeyColumnError \<longleftrightarrow>
      2 \<le> length rows \<and> ''key'' \<notin> strip ` set (hd rows)"
    by (auto simp: parse_csv_data_def Let_def)
  then show ?thesis by (simp add: eval_defs)
qed

section \<open>Column indices\<close>

text \<open>
  C2. The claim: the column index bound to a language is the position of its cell in the
  header row, so every value is read from that column of the data row. The code takes the
  indices from \<open>headers\<close>, the list left after the empty header cells are dropped, and
  reads the unfiltered data rows at them: with an empty header cell before \<open>en\<close> the
  language is bound to column 1 and the value \<open>x\<close> of the empty-headed column is read in
  place of \<open>hello\<close>; with an empty header cell before \<open>key\<close> the key is read from column
  0 and every row is skipped.
\<close>

theorem empty_header_cell_shifts_columns:
  "header_language_columns [''key'', '''', ''en''] = [(''en'', 1)] \<and>
   parse_csv_data [[''key'', '''', ''en''], [''a'', ''x'', ''hello'']] = Inr [(''a'', [(''en'', ''x'')])] \<and>
   parse_csv_data [['''', ''key'', ''en''], ['''', ''a'', ''hello'']] = Inr []"
  by (simp add: eval_defs)

section \<open>Repeated keys\<close>

text \<open>
  C3. When several data rows carry the same trimmed, non-empty key, the entry of that key
  in the returned map is the translation set built from the last of these rows alone (the
  one that parsing the header with that single row gives): what earlier rows stored is
  replaced as a whole, not merged cell by cell.
\<close>

theorem duplicate_key_last_row_wins:
  assumes "parse_csv_data (header # before @ r # after) = Inr result"
    and "row_key (header_key_index header) r = Some k"
    and "\<forall>r' \<in> set after. row_key (header_key_index header) r' \<noteq> Some k"
  shows "parse_csv_data [header, r] = Inr [(k, row_translations (header_language_columns header) r [])] \<and>
         map_of result k = Some (row_translations (header_language_columns header) r [])"
proof -
  let ?ki = "header_key_index header" and ?lc = "header_language_columns header"
  from assms(1) have ok: "''key'' \<in> set (headers_of header)" "?lc \<noteq> []"
    and res: "result = process_rows ?ki ?lc (before @ r # after) []"
    by (simp_all add: parse_csv_data_Inr)
  have "process_rows ?ki ?lc [r] [] = [(k, row_translations ?lc r [])]"
    using assms(2) by (simp only: process_rows_keep) simp
  with ok have "parse_csv_data [header, r] = Inr [(k, row_translations ?lc r [])]"
    by (simp add: parse_csv_data_Inr)
  moreover have "map_of result k = Some (row_translations ?lc r [])"
    unfolding res using assms(2,3) by (rule process_rows_last)
  ultimately show ?thesis by simp
qed

text \<open>The rows \<open>key,en / a,1 / a,2\<close> give \<open>a\<close> the single value \<open>2\<close>.\<close>

theorem duplicate_key_last_row_wins_witness:
  "parse_csv_data [[''key'', ''en''], [''a'', ''1''], [''a'', ''2'']] = Inr [(''a'', [(''en'', ''2'')])] \<and>
   row_key (header_key_index [''key'', ''en'']) [''a'', ''2''] = Some ''a'' \<and>
   parse_csv_data [[''key'', ''en''], [''a'', ''2'']] = Inr [(''a'', [(''en'', ''2'')])] \<and>
   map_of [(''a'', [(''en'', ''2'')])] ''a'' =
     Some (row_translations (header_language_columns [''key'', ''en'']) [''a'', ''2''] [])"
proof -
  have h1: "parse_csv_data ([''key'', ''en''] # [[''a'', ''1'']] @ [''a'', ''2''] # []) =
      Inr [(''a'', [(''en'', ''2'')])]"
    by (simp add: eval_defs)
  have h2: "row_key (header_key_index [''key'', ''en'']) [''a'', ''2''] = Some ''a''"
    by (simp add: eval_defs)
  have h3: "\<forall>r' \<in> set []. row_key (header_key_index [''key'', ''en'']) r' \<noteq> Some ''a''"
    by simp
  from duplicate_key_last_row_wins [OF h1 h2 h3] h1 h2 show ?thesis
    by (simp add: eval_defs)
qed

section \<open>Too few rows\<close>

text \<open>
  C4. \<open>parse_csv_data\<close> fails with the malformed-table error exactly when the row list has
  fewer than two rows; then no map is returned, and \<open>main\<close> ends with status 1 and leaves
  the output state as it was: no path opened, no document written.
\<close>

theorem too_few_rows_is_malformed:
  "(parse_csv_data rows = Inl MalformedTableError \<longleftrightarrow> length rows < 2) \<and>
   (length rows < 2 \<longrightarrow> (\<forall>data. parse_csv_data rows \<noteq> Inr data) \<and> main Op Du rows st = (1, st))"
  by (auto simp: parse_csv_data_def main_def Let_def)

text \<open>A table that is a header row only.\<close>

theorem too_few_rows_is_malformed_witness:
  "length [[''key'', ''en'']] < 2 \<and>
   parse_csv_data [[''key'', ''en'']] = Inl MalformedTableError \<and>
   main {} {} [[''key'', ''en'']] empty_state = (1, empty_state)"
  using too_few_rows_is_malformed [of "[[''key'', ''en'']]" "{}" "{}" empty_state] by simp

section \<open>Which keys a document holds\<close>

text \<open>
  C5. The claim: the document of a language holds a key exactly when the map's value for
  that key and language exists and is non-empty after trimming, also for a value that is
  whitespace only after the escape sequences were replaced. The code tests the value as it
  is stored, without trimming. A cell that is the two characters backslash, \<open>n\<close> is
  stored as one newline character: it is empty after trimming, yet the key is written to
  the document with that value.
\<close>

theorem document_keeps_whitespace_value:
  "parse_csv_data [[''key'', ''en''], [''a'', [CHR 0x5C, CHR ''n'']]] =
     Inr [(''a'', [(''en'', [CHR 0x0A])])] \<and>
   strip [CHR 0x0A] = [] \<and>
   lang_document ''en'' [(''a'', [(''en'', [CHR 0x0A])])] = [(''a'', [CHR 0x0A])] \<and>
   files (snd (generate_json_files {} {} [(''a'', [(''en'', [CHR 0x0A])])] empty_state))
     ''lib/l10n/intl_en.arb'' = Some (Complete [(''a'', [CHR 0x0A])])"
  by (simp add: eval_defs emit_defs)

text \<open>
  C5, amended. For every map (a dict: its keys are distinct) and every language, the
  document of that language holds a key exactly when the map's value for that key and
  language exists and is not the empty string, and it holds that value unchanged; no
  trimming takes place when the documents are built. Absent and empty values are left
  out, so no document holds an empty string. When no write fails, the file of each
  declared language holds that document.
\<close>

theorem document_holds_nonempty_values:
  assumes "distinct (map fst data)"
  shows "map_of (lang_document lang data) k =
           (case map_of data k of
              None \<Rightarrow> None
            | Some tr \<Rightarrow>
                (case map_of tr lang of
                   None \<Rightarrow> None
                 | Some v \<Rightarrow> if v \<noteq> [] then Some v else None)) \<and>
         (k \<in> fst ` set (lang_document lang data) \<longleftrightarrow>
            (\<exists>tr v. map_of data k = Some tr \<and> map_of tr lang = Some v \<and> v \<noteq> [])) \<and>
         ((k, w) \<in> set (lang_document lang data) \<longrightarrow> w \<noteq> []) \<and>
         ((lang, cfg) \<in> set LANGUAGES \<longrightarrow>
            files (snd (generate_json_files {} {} data st)) (file_path cfg) =
              Some (Complete (lang_document lang data)))"
proof -
  have eq: "map_of (lang_document lang data) k =
           (case map_of data k of
              None \<Rightarrow> None
            | Some tr \<Rightarrow>
                (case map_of tr lang of
                   None \<Rightarrow> None
                 | Some v \<Rightarrow> if v \<noteq> [] then Some v else None))"
    using assms by (simp add: lang_document_def lang_data_loop_lookup split: option.splits)
  have "k \<in> fst ` set (lang_document lang data) \<longleftrightarrow> map_of (lang_document lang data) k \<noteq> None"
    by (simp add: map_of_eq_None_iff)
  then have mem: "k \<in> fst ` set (lang_document lang data) \<longleftrightarrow>
      (\<exists>tr v. map_of data k = Some tr \<and> map_of tr lang = Some v \<and> v \<noteq> [])"
    unfolding eq by (auto split: option.splits)
  have ne: "(k, w) \<in> set (lang_document lang data) \<longrightarrow> w \<noteq> []"
    using lang_data_loop_mem [of k w lang data "[]"] by (auto simp: lang_document_def)
  have "(lang, cfg) \<in> set LANGUAGES \<longrightarrow>
      files (snd (generate_json_files {} {} data st)) (file_path cfg) =
        Some (Complete (lang_document lang data))"
    unfolding generate_json_files_def
    using generate_loop_written [of LANGUAGES "{}" "{}" lang cfg data st] distinct_paths by auto
  with eq mem ne show ?thesis by blast
qed

text \<open>A map in which \<open>a\<close> has an English value and an empty Chinese one.\<close>

theorem document_holds_nonempty_values_witness:
  "distinct (map fst [(''a'', [(''en'', ''1''), (''zh'', '''')])]) \<and>
   map_of (lang_document ''en'' [(''a'', [(''en'', ''1''), (''zh'', '''')])]) ''a'' = Some ''1'' \<and>
   ''a'' \<in> fst ` set (lang_document ''en'' [(''a'', [(''en'', ''1''), (''zh'', '''')])]) \<and>
   files (snd (generate_json_files {} {} [(''a'', [(''en'', ''1''), (''zh'', '''')])] empty_state))
     (file_path \<lparr>code = ''en'', file_name = ''intl_en.arb''\<rparr>) =
     Some (Complete (lang_document ''en'' [(''a'', [(''en'', ''1''), (''zh'', '''')])]))"
proof -
  have h: "distinct (map fst [(''a'', [(''en'', ''1''), (''zh'', '''')])])" by simp
  have l: "(''en'', \<lparr>code = ''en'', file_name = ''intl_en.arb''\<rparr>) \<in> set LANGUAGES"
    by (simp add: LANGUAGES_def)
  from document_holds_nonempty_values
    [OF h, of "''en''" "''a''" "''1''" "\<lparr>code = ''en'', file_name = ''intl_en.arb''\<rparr>" empty_state]
    h l
  show ?thesis by simp
qed

section \<open>Stored cell values\<close>

text \<open>
  C6. In the entry that a data row gives its key (the last row with that key), the value of
  every language whose column index lies inside the row is the cell at that index with the
  surrounding whitespace trimmed and then the two-character sequences backslash \<open>n\<close> and
  backslash double-quote replaced by a newline and a double quote; a language whose column
  index is at or beyond the row's length is absent from the entry; and the entry holds no
  other values.
\<close>

theorem stored_cell_values:
  assumes "parse_csv_data (header # before @ r # after) = Inr result"
    and "row_key (header_key_index header) r = Some k"
    and "\<forall>r' \<in> set after. row_key (header_key_index header) r' \<noteq> Some k"
  shows "\<exists>tr. map_of result k = Some tr \<and>
           (\<forall>lang col. (lang, col) \<in> set (header_language_columns header) \<longrightarrow>
              (col < length r \<longrightarrow>
                 map_of tr lang =
                   Some (replace [CHR 0x5C, CHR 0x22] [CHR 0x22]
                          (replace [CHR 0x5C, CHR ''n''] [CHR 0x0A] (strip (r ! col))))) \<and>
              (length r \<le> col \<longrightarrow> map_of tr lang = None \<and> lang \<notin> fst ` set tr)) \<and>
           (\<forall>lang v. (lang, v) \<in> set tr \<longrightarrow>
              (\<exists>col. (lang, col) \<in> set (header_language_columns header) \<and> col < length r \<and>
                 v = replace [CHR 0x5C, CHR 0x22] [CHR 0x22]
                       (replace [CHR 0x5C, CHR ''n''] [CHR 0x0A] (strip (r ! col)))))"
proof -
  let ?ki = "header_key_index header" and ?lc = "header_language_columns header"
  let ?tr = "row_translations ?lc r []"
  from assms(1) have res: "result = process_rows ?ki ?lc (before @ r # after) []"
    by (simp add: parse_csv_data_Inr)
  have look: "map_of result k = Some ?tr"
    unfolding res using assms(2,3) by (rule process_rows_last)
  have cols: "(col < length r \<longrightarrow> map_of ?tr lang = Some (clean_value (r ! col))) \<and>
              (length r \<le> col \<longrightarrow> map_of ?tr lang = None \<and> lang \<notin> fst ` set ?tr)"
    if "(lang, col) \<in> set ?lc" for lang col
  proof -
    from that have "map_of ?lc lang = Some col"
      by (simp add: distinct_header_language_columns)
    then have "map_of ?tr lang = (if col < length r then Some (clean_value (r ! col)) else None)"
      by (simp add: row_translations_lookup distinct_header_language_columns)
    then show ?thesis
      using map_of_eq_None_iff [of ?tr lang] by (cases "col < length r") simp_all
  qed
  have vals: "\<exists>col. (lang, col) \<in> set ?lc \<and> col < length r \<and> v = clean_value (r ! col)"
    if "(lang, v) \<in> set ?tr" for lang v
    using row_translations_mem [OF that] by simp
  from look cols vals show ?thesis unfolding clean_value_def by blast
qed

text \<open>
  A row with two cells under a header with three columns: the English cell is trimmed and
  its escape sequence replaced, the Chinese column lies beyond the row.
\<close>

theorem stored_cell_values_witness:
  "parse_csv_data [[''key'', ''en'', ''zh''], [''a'', '' x'' @ [CHR 0x5C, CHR ''n''] @ ''y '']] =
     Inr [(''a'', [(''en'', ''x'' @ [CHR 0x0A] @ ''y'')])] \<and>
   row_key (header_key_index [''key'', ''en'', ''zh''])
     [''a'', '' x'' @ [CHR 0x5C, CHR ''n''] @ ''y ''] = Some ''a'' \<and>
   header_language_columns [''key'', ''en'', ''zh''] = [(''en'', 1), (''zh'', 2)] \<and>
   map_of [(''en'', ''x'' @ [CHR 0x0A] @ ''y'')] ''zh'' = None"
proof -
  let ?r = "[''a'', '' x'' @ [CHR 0x5C, CHR ''n''] @ ''y '']"
  have h1: "parse_csv_data ([''key'', ''en'', ''zh''] # [] @ ?r # []) =
      Inr [(''a'', [(''en'', ''x'' @ [CHR 0x0A] @ ''y'')])]"
    by (simp add: eval_defs)
  have h2: "row_key (header_key_index [''key'', ''en'', ''zh'']) ?r = Some ''a''"
    by (simp add: eval_defs)
  have h3: "\<forall>r' \<in> set []. row_key (header_key_index [''key'', ''en'', ''zh'']) r' \<noteq> Some ''a''"
    by simp
  have lc: "header_language_columns [''key'', ''en'', ''zh''] = [(''en'', 1), (''zh'', 2)]"
    by (simp add: eval_defs)
  from stored_cell_values [OF h1 h2 h3] h1 h2 lc show ?thesis by simp
qed

section \<open>A write that fails\<close>

text \<open>
  C7. The claim: when writing one language's document fails, the remaining declared
  languages are still attempted and the errors are collected. Nothing in
  \<open>generate_json_files\<close> catches the exception of a write: with \<open>open\<close> failing on the
  first path (Chinese) the call ends with that error, that path is the only one opened, the
  English document is not written, and \<open>main\<close> exits with status 1; with \<open>json.dump\<close>
  failing on the first path the same holds, and the Chinese file is left incomplete.
\<close>

theorem failed_write_skips_later_languages:
  "fst (generate_json_files {''lib/l10n/intl_zh.arb''} {} [(''a'', [(''en'', ''1'')])] empty_state) =
     Inl (WriteFailure ''lib/l10n/intl_zh.arb'') \<and>
   opened (snd (generate_json_files {''lib/l10n/intl_zh.arb''} {} [(''a'', [(''en'', ''1'')])] empty_state)) =
     [''lib/l10n/intl_zh.arb''] \<and>
   files (snd (generate_json_files {''lib/l10n/intl_zh.arb''} {} [(''a'', [(''en'', ''1'')])] empty_state))
     ''lib/l10n/intl_en.arb'' = None \<and>
   fst (main {''lib/l10n/intl_zh.arb''} {} [[''key'', ''en''], [''a'', ''1'']] empty_state) = 1 \<and>
   fst (generate_json_files {} {''lib/l10n/intl_zh.arb''} [(''a'', [(''en'', ''1'')])] empty_state) =
     Inl (WriteFailure ''lib/l10n/intl_zh.arb'') \<and>
   opened (snd (generate_json_files {} {''lib/l10n/intl_zh.arb''} [(''a'', [(''en'', ''1'')])] empty_state)) =
     [''lib/l10n/intl_zh.arb''] \<and>
   files (snd (generate_json_files {} {''lib/l10n/intl_zh.arb''} [(''a'', [(''en'', ''1'')])] empty_state))
     ''lib/l10n/intl_zh.arb'' = Some (Incomplete []) \<and>
   files (snd (generate_json_files {} {''lib/l10n/intl_zh.arb''} [(''a'', [(''en'', ''1'')])] empty_state))
     ''lib/l10n/intl_en.arb'' = None \<and>
   fst (main {} {''lib/l10n/intl_zh.arb''} [[''key'', ''en''], [''a'', ''1'']] empty_state) = 1"
  by (simp add: eval_defs emit_defs)

text \<open>
  C7, amended. The documents are written one language after the other, in declared order,
  and the first write that fails ends the emission, whether \<open>open\<close> raises or \<open>json.dump\<close>
  or the close does: the call fails with that error and no error is collected, the
  documents of the languages declared before the failing one have been written in full,
  the paths opened are theirs and the failing one, the files of every later language are
  as they were before the call (they are not attempted), and \<open>main\<close> exits with status 1.
  The file of the failing language is as it was before the call when \<open>open\<close> raised, and
  is truncated and left incomplete when the failure came after \<open>open\<close>.
\<close>

theorem write_failure_ends_emission:
  assumes "LANGUAGES = before @ (c, cfg) # after"
    and "file_path cfg \<in> Op \<union> Du"
    and "\<forall>(c', g) \<in> set before. file_path g \<notin> Op \<union> Du"
  shows "fst (generate_json_files Op Du data st) = Inl (WriteFailure (file_path cfg)) \<and>
         opened (snd (generate_json_files Op Du data st)) =
           opened st @ map (file_path \<circ> snd) before @ [file_path cfg] \<and>
         (\<forall>(c', g) \<in> set before.
            files (snd (generate_json_files Op Du data st)) (file_path g) =
              Some (Complete (lang_document c' data))) \<and>
         (\<forall>(c', g) \<in> set after.
            files (snd (generate_json_files Op Du data st)) (file_path g) = files st (file_path g)) \<and>
         (file_path cfg \<in> Op \<longrightarrow>
            files (snd (generate_json_files Op Du data st)) (file_path cfg) = files st (file_path cfg)) \<and>
         (file_path cfg \<notin> Op \<longrightarrow>
            files (snd (generate_json_files Op Du data st)) (file_path cfg) =
              Some (Incomplete (lang_document c data))) \<and>
         (parse_csv_data rows = Inr data \<longrightarrow> fst (main Op Du rows st) = 1)"
proof -
  let ?run = "generate_json_files Op Du data st"
  let ?pre = "generate_loop Op Du data before st"
  have run: "?run = generate_loop Op Du data (before @ (c, cfg) # after) st"
    by (simp add: generate_json_files_def assms(1))
  have err: "fst ?run = Inl (WriteFailure (file_path cfg))"
    unfolding run using assms(2,3) by (rule generate_loop_fail(1))
  have log: "opened (snd ?run) = opened st @ map (file_path \<circ> snd) before @ [file_path cfg]"
    unfolding run using assms(2,3) by (rule generate_loop_fail(2))
  have fs: "files (snd ?run) =
      (if file_path cfg \<in> Op then files (snd ?pre)
       else (files (snd ?pre))(file_path cfg \<mapsto> Incomplete (lang_document c data)))"
    unfolding run using assms(2,3) by (rule generate_loop_fail(3))
  from distinct_paths have d: "distinct (map (file_path \<circ> snd) before)"
    and sep: "\<forall>x \<in> set ((c, cfg) # after). file_path (snd x) \<notin> (file_path \<circ> snd) ` set before"
    unfolding assms(1) by auto
  from distinct_paths have "file_path cfg \<notin> (file_path \<circ> snd) ` set (before @ after)"
    unfolding assms(1) by auto
  then have own: "\<forall>x \<in> set (before @ after). file_path (snd x) \<noteq> file_path cfg"
    by force
  have written: "files (snd ?run) (file_path g) = Some (Complete (lang_document c' data))"
    if "(c', g) \<in> set before" for c' g
  proof -
    from that own have "file_path g \<noteq> file_path cfg" by force
    moreover have "files (snd ?pre) (file_path g) = Some (Complete (lang_document c' data))"
      using assms(3) d that by (rule generate_loop_written)
    ultimately show ?thesis unfolding fs by simp
  qed
  have kept: "files (snd ?run) (file_path g) = files st (file_path g)"
    if "(c', g) \<in> set after" for c' g
  proof -
    from that own have "file_path g \<noteq> file_path cfg" by force
    moreover from that sep have "file_path g \<notin> (file_path \<circ> snd) ` set before" by force
    then have "files (snd ?pre) (file_path g) = files st (file_path g)"
      by (rule generate_loop_other)
    ultimately show ?thesis unfolding fs by simp
  qed
  from sep have "file_path cfg \<notin> (file_path \<circ> snd) ` set before" by simp
  then have pre: "files (snd ?pre) (file_path cfg) = files st (file_path cfg)"
    by (rule generate_loop_other)
  have untouched: "file_path cfg \<in> Op \<longrightarrow> files (snd ?run) (file_path cfg) = files st (file_path cfg)"
    unfolding fs using pre by simp
  have broken: "file_path cfg \<notin> Op \<longrightarrow>
      files (snd ?run) (file_path cfg) = Some (Incomplete (lang_document c data))"
    unfolding fs by simp
  have status: "parse_csv_data rows = Inr data \<longrightarrow> fst (main Op Du rows st) = 1"
    using err by (auto simp: main_def split: prod.splits sum.splits)
  have written_all: "\<forall>(c', g) \<in> set before.
      files (snd ?run) (file_path g) = Some (Complete (lang_document c' data))"
    using written by auto
  have kept_all: "\<forall>(c', g) \<in> set after. files (snd ?run) (file_path g) = files st (file_path g)"
    using kept by auto
  show ?thesis
    using err log written_all kept_all untouched broken status
    by (simp only: simp_thms)
qed

text \<open>
  Writing the English document fails after \<open>open\<close>: Chinese is written in full, English is
  left incomplete, Japanese is not attempted.
\<close>

theorem write_failure_ends_emission_witness:
  "file_path \<lparr>code = ''en'', file_name = ''intl_en.arb''\<rparr> \<in> {} \<union> {''lib/l10n/intl_en.arb''} \<and>
   fst (generate_json_files {} {''lib/l10n/intl_en.arb''} [(''a'', [(''zh'', ''1'')])] empty_state) =
     Inl (WriteFailure ''lib/l10n/intl_en.arb'') \<and>
   opened (snd (generate_json_files {} {''lib/l10n/intl_en.arb''} [(''a'', [(''zh'', ''1'')])] empty_state)) =
     [''lib/l10n/intl_zh.arb'', ''lib/l10n/intl_en.arb''] \<and>
   files (snd (generate_json_files {} {''lib/l10n/intl_en.arb''} [(''a'', [(''zh'', ''1'')])] empty_state))
     ''lib/l10n/intl_en.arb'' = Some (Incomplete (lang_document ''en'' [(''a'', [(''zh'', ''1'')])]))"
proof -
  let ?zh = "(''zh'', \<lparr>code = ''zh'', file_name = ''intl_zh.arb''\<rparr>)"
  let ?en = "\<lparr>code = ''en'', file_name = ''intl_en.arb''\<rparr>"
  let ?after = "[(''ja'', \<lparr>code = ''ja'', file_name = ''intl_ja.arb''\<rparr>),
                 (''ko'', \<lparr>code = ''ko'', file_name = ''intl_ko.arb''\<rparr>),
                 (''tr'', \<lparr>code = ''tr'', file_name = ''intl_tr.arb''\<rparr>)]"
  have h1: "LANGUAGES = [?zh] @ (''en'', ?en) # ?after"
    by (simp add: LANGUAGES_def)
  have h2: "file_path ?en \<in> {} \<union> {''lib/l10n/intl_en.arb''}"
    by (simp add: file_path_def ARB_DIR_def)
  have h3: "\<forall>(c', g) \<in> set [?zh]. file_path g \<notin> {} \<union> {''lib/l10n/intl_en.arb''}"
    by (simp add: file_path_def ARB_DIR_def)
  from write_failure_ends_emission [OF h1 h2 h3, of "[(''a'', [(''zh'', ''1'')])]" empty_state] h2
  show ?thesis by (simp add: file_path_def ARB_DIR_def empty_state_def)
qed

section \<open>Empty rows\<close>

text \<open>
  C8. Rows whose cells are all empty or whitespace contribute no key and do not cut off
  later rows. Appended to a table of two rows or more they leave the result of
  \<open>parse_csv_data\<close> unchanged; \<open>write_csv\<close> removes nothing but a suffix of such rows, and
  what it keeps does not end in one. The table \<open>key,en / a,1\<close> followed by two blank rows
  gives a map with the one key \<open>a\<close>, and the table with a blank row between \<open>a,1\<close> and
  \<open>b,2\<close> gives the two keys \<open>a\<close> and \<open>b\<close>, both as the parser reads them and after
  \<open>write_csv\<close> has trimmed them.
\<close>

theorem blank_rows_contribute_nothing:
  "(2 \<le> length rows \<and> list_all is_empty_row blanks \<longrightarrow>
      parse_csv_data (rows @ blanks) = parse_csv_data rows) \<and>
   (\<exists>blanks. rows = write_csv rows @ blanks \<and> list_all is_empty_row blanks) \<and>
   (write_csv rows = [] \<or> \<not> is_empty_row (last (write_csv rows))) \<and>
   parse_csv_data [[''key'', ''en''], [''a'', ''1''], ['''', ''  ''], ['''', ''  '']] =
     Inr [(''a'', [(''en'', ''1'')])] \<and>
   parse_csv_data [[''key'', ''en''], [''a'', ''1''], ['''', ''''], [''b'', ''2'']] =
     Inr [(''a'', [(''en'', ''1'')]), (''b'', [(''en'', ''2'')])] \<and>
   write_csv [[''key'', ''en''], [''a'', ''1''], ['''', ''  ''], ['''', ''  '']] =
     [[''key'', ''en''], [''a'', ''1'']] \<and>
   write_csv [[''key'', ''en''], [''a'', ''1''], ['''', ''''], [''b'', ''2'']] =
     [[''key'', ''en''], [''a'', ''1''], ['''', ''''], [''b'', ''2'']]"
proof -
  have a: "2 \<le> length rows \<and> list_all is_empty_row blanks \<longrightarrow>
      parse_csv_data (rows @ blanks) = parse_csv_data rows"
    by (simp add: parse_blank_suffix)
  have b: "\<exists>blanks. rows = write_csv rows @ blanks \<and> list_all is_empty_row blanks"
    unfolding write_csv_def by (rule pop_trailing_decomp)
  have c: "write_csv rows = [] \<or> \<not> is_empty_row (last (write_csv rows))"
    unfolding write_csv_def by (rule pop_trailing_last)
  have d: "parse_csv_data [[''key'', ''en''], [''a'', ''1''], ['''', ''  ''], ['''', ''  '']] =
      Inr [(''a'', [(''en'', ''1'')])]"
    by (simp add: eval_defs)
  have e: "parse_csv_data [[''key'', ''en''], [''a'', ''1''], ['''', ''''], [''b'', ''2'']] =
      Inr [(''a'', [(''en'', ''1'')]), (''b'', [(''en'', ''2'')])]"
    by (simp add: eval_defs)
  have f: "write_csv [[''key'', ''en''], [''a'', ''1''], ['''', ''  ''], ['''', ''  '']] =
      [[''key'', ''en''], [''a'', ''1'']]"
    by (simp add: write_csv_def pop_trailing.simps is_empty_row_def strip_def isspace_def)
  have g: "write_csv [[''key'', ''en''], [''a'', ''1''], ['''', ''''], [''b'', ''2'']] =
      [[''key'', ''en''], [''a'', ''1''], ['''', ''''], [''b'', ''2'']]"
    by (simp add: write_csv_def pop_trailing.simps is_empty_row_def strip_def isspace_def)
  from a b c d e f g show ?thesis by blast
qed

text \<open>The first table of the claim, split into its two real rows and its two blank rows.\<close>

theorem blank_rows_contribute_nothing_witness:
  "2 \<le> length [[''key'', ''en''], [''a'', ''1'']] \<and>
   list_all is_empty_row [['''', ''  ''], ['''', ''  '']] \<and>
   parse_csv_data ([[''key'', ''en''], [''a'', ''1'']] @ [['''', ''  ''], ['''', ''  '']]) =
     parse_csv_data [[''key'', ''en''], [''a'', ''1'']]"
proof -
  have h: "2 \<le> length [[''key'', ''en''], [''a'', ''1'']] \<and>
      list_all is_empty_row [['''', ''  ''], ['''', ''  '']]"
    by (simp add: is_empty_row_def strip_def isspace_def)
  from blank_rows_contribute_nothing
    [of "[[''key'', ''en''], [''a'', ''1'']]" "[['''', ''  ''], ['''', ''  '']]"] h
  show ?thesis by blast
qed

section \<open>Determinism\<close>

text \<open>
  C9. Parsing and emitting are deterministic: for a table that \<open>parse_csv_data\<close> accepts,
  with no write failing on a declared path, two runs on the same rows end with status 0 and
  leave at the path of every declared language the same document, the one built from the
  parsed map, written in full, whatever the files held before each run; so does the text
  that any serialiser \<open>dump\<close> makes of it. The rows are what \<open>csv.reader\<close> returns, a
  function of the CSV text.
\<close>

theorem emission_is_deterministic:
  assumes "parse_csv_data rows = Inr data"
    and "\<forall>(c, cfg) \<in> set LANGUAGES. file_path cfg \<notin> Op1 \<union> Du1 \<union> Op2 \<union> Du2"
  shows "fst (main Op1 Du1 rows st1) = 0 \<and> fst (main Op2 Du2 rows st2) = 0 \<and>
         (\<forall>(c, cfg) \<in> set LANGUAGES.
            files (snd (main Op1 Du1 rows st1)) (file_path cfg) =
              Some (Complete (lang_document c data)) \<and>
            files (snd (main Op2 Du2 rows st2)) (file_path cfg) =
              files (snd (main Op1 Du1 rows st1)) (file_path cfg) \<and>
            map_option dump (files (snd (main Op2 Du2 rows st2)) (file_path cfg)) =
              map_option dump (files (snd (main Op1 Du1 rows st1)) (file_path cfg)))"
proof -
  have run: "fst (main Op Du rows st) = 0 \<and>
      files (snd (main Op Du rows st)) (file_path cfg) = Some (Complete (lang_document c data))"
    if w: "\<forall>(c, cfg) \<in> set LANGUAGES. file_path cfg \<notin> Op \<union> Du" and l: "(c, cfg) \<in> set LANGUAGES"
    for Op Du st c cfg
  proof -
    obtain res st' where g: "generate_loop Op Du data LANGUAGES st = (res, st')"
      by (cases "generate_loop Op Du data LANGUAGES st")
    from generate_loop_ok [OF w, of data st] g have res: "res = Inr ()" by simp
    with g assms(1) have m: "main Op Du rows st = (0, st')"
      by (simp add: main_def generate_json_files_def)
    have "files st' (file_path cfg) = Some (Complete (lang_document c data))"
      using generate_loop_written [OF w distinct_paths l, of data st] g by simp
    with m show ?thesis by simp
  qed
  from assms(2) have w1: "\<forall>(c, cfg) \<in> set LANGUAGES. file_path cfg \<notin> Op1 \<union> Du1"
    and w2: "\<forall>(c, cfg) \<in> set LANGUAGES. file_path cfg \<notin> Op2 \<union> Du2" by auto
  have some: "(''zh'', \<lparr>code = ''zh'', file_name = ''intl_zh.arb''\<rparr>) \<in> set LANGUAGES"
    by (simp add: LANGUAGES_def)
  have ok: "fst (main Op1 Du1 rows st1) = 0 \<and> fst (main Op2 Du2 rows st2) = 0"
    using run [OF w1 some] run [OF w2 some] by simp
  have each: "files (snd (main Op1 Du1 rows st1)) (file_path cfg) =
        Some (Complete (lang_document c data)) \<and>
      files (snd (main Op2 Du2 rows st2)) (file_path cfg) =
        files (snd (main Op1 Du1 rows st1)) (file_path cfg) \<and>
      map_option dump (files (snd (main Op2 Du2 rows st2)) (file_path cfg)) =
        map_option dump (files (snd (main Op1 Du1 rows st1)) (file_path cfg))"
    if "(c, cfg) \<in> set LANGUAGES" for c cfg
    using run [OF w1 that, of st1] run [OF w2 that, of st2] by simp
  have "\<forall>(c, cfg) \<in> set LANGUAGES.
      files (snd (main Op1 Du1 rows st1)) (file_path cfg) =
        Some (Complete (lang_document c data)) \<and>
      files (snd (main Op2 Du2 rows st2)) (file_path cfg) =
        files (snd (main Op1 Du1 rows st1)) (file_path cfg) \<and>
      map_option dump (files (snd (main Op2 Du2 rows st2)) (file_path cfg)) =
        map_option dump (files (snd (main Op1 Du1 rows st1)) (file_path cfg))"
  proof
    fix x
    assume x: "x \<in> set LANGUAGES"
    obtain c cfg where eq: "x = (c, cfg)" by (cases x)
    from x have "(c, cfg) \<in> set LANGUAGES" unfolding eq .
    from each [OF this] show "case x of (c, cfg) \<Rightarrow>
      files (snd (main Op1 Du1 rows st1)) (file_path cfg) =
        Some (Complete (lang_document c data)) \<and>
      files (snd (main Op2 Du2 rows st2)) (file_path cfg) =
        files (snd (main Op1 Du1 rows st1)) (file_path cfg) \<and>
      map_option dump (files (snd (main Op2 Du2 rows st2)) (file_path cfg)) =
        map_option dump (files (snd (main Op1 Du1 rows st1)) (file_path cfg))"
      unfolding eq prod.case .
  qed
  with ok show ?thesis by (simp only: simp_thms)
qed

text \<open>
  Two runs on \<open>key,en / a,1\<close>, the second one over a stale English file.
\<close>

theorem emission_is_deterministic_witness:
  "parse_csv_data [[''key'', ''en''], [''a'', ''1'']] = Inr [(''a'', [(''en'', ''1'')])] \<and>
   fst (main {} {} [[''key'', ''en''], [''a'', ''1'']] empty_state) = 0 \<and>
   files (snd (main {} {} [[''key'', ''en''], [''a'', ''1'']]
       \<lparr>files = [''lib/l10n/intl_en.arb'' \<mapsto> Complete [(''old'', ''x'')]], opened = []\<rparr>))
     ''lib/l10n/intl_en.arb'' =
   files (snd (main {} {} [[''key'', ''en''], [''a'', ''1'']] empty_state)) ''lib/l10n/intl_en.arb'' \<and>
   files (snd (main {} {} [[''key'', ''en''], [''a'', ''1'']] empty_state)) ''lib/l10n/intl_en.arb'' =
     Some (Complete [(''a'', ''1'')])"
proof -
  have h1: "parse_csv_data [[''key'', ''en''], [''a'', ''1'']] = Inr [(''a'', [(''en'', ''1'')])]"
    by (simp add: eval_defs)
  have h2: "\<forall>(c, cfg) \<in> set LANGUAGES. file_path cfg \<notin> {} \<union> {} \<union> {} \<union> {}"
    by simp
  from emission_is_deterministic [OF h1 h2, of empty_state
      "\<lparr>files = [''lib/l10n/intl_en.arb'' \<mapsto> Complete [(''old'', ''x'')]], opened = []\<rparr>" id] h1
  show ?thesis by (simp add: LANGUAGES_def file_path_def ARB_DIR_def lang_document_def)
qed

section \<open>Only declared languages\<close>

text \<open>
  Two facts that hold of every accepted table: the language codes of the inner mappings
  are declared languages, and every pair of a document that \<open>generate_json_files\<close> writes
  in full has a key of the map, with the value the map holds for that key and a declared
  language.
\<close>

lemma inner_codes_declared:
  assumes "parse_csv_data rows = Inr data" and "(k, tr) \<in> set data" and "lang \<in> fst ` set tr"
  shows "lang \<in> fst ` set LANGUAGES"
proof -
  let ?ki = "header_key_index (hd rows)" and ?lc = "header_language_columns (hd rows)"
  from assms(1) have data: "data = process_rows ?ki ?lc (tl rows) []"
    by (simp add: parse_csv_data_Inr)
  from assms(2) obtain r where "tr = row_translations ?lc r []"
    unfolding data by (auto dest: process_rows_mem)
  with assms(3) row_translations_keys [of ?lc r "[]"] have "lang \<in> fst ` set ?lc" by auto
  then show ?thesis by (auto dest: header_language_columns_declared)
qed

lemma written_pairs_from_map:
  assumes "parse_csv_data rows = Inr data"
    and "files (snd (generate_json_files Op Du data empty_state)) p = Some (Complete doc)"
    and "(k, v) \<in> set doc"
  shows "\<exists>tr lang. lang \<in> fst ` set LANGUAGES \<and> map_of data k = Some tr \<and> map_of tr lang = Some v"
proof -
  from assms(1) have "data = process_rows (header_key_index (hd rows))
      (header_language_columns (hd rows)) (tl rows) []"
    by (simp add: parse_csv_data_Inr)
  then have dist: "distinct (map fst data)"
    by (simp add: distinct_process_rows)
  from assms(2) have "files (snd (generate_loop Op Du data LANGUAGES empty_state)) p = Some (Complete doc)"
    by (simp add: generate_json_files_def)
  from generate_loop_files [OF this] obtain c cfg
    where l: "(c, cfg) \<in> set LANGUAGES" and doc: "doc = lang_document c data"
    by (auto simp: empty_state_def)
  from assms(3) doc lang_data_loop_mem [of k v c data "[]"] obtain tr
    where tr: "(k, tr) \<in> set data" "map_of tr c = Some v"
    by (auto simp: lang_document_def)
  from tr(1) dist have "map_of data k = Some tr" by simp
  with l tr show ?thesis by force
qed

text \<open>
  C10. The claim: in the map of every accepted table the inner language codes are declared
  languages, data from unmatched columns never enters the map, and so every pair of an
  emitted document comes from the map. The codes are declared, but the values need not
  come from the columns of those codes: the indices are taken from the header list after
  its empty cells were dropped (the defect of C2). With an empty header cell before an
  undeclared column \<open>fr\<close> and the column \<open>en\<close>, the code binds \<open>en\<close> to index 2 and
  stores the cell \<open>un\<close> of the unmatched column \<open>fr\<close> as the English value, which is then
  written to the English document.
\<close>

theorem unmatched_column_enters_map:
  "header_language_columns [''key'', '''', ''fr'', ''en''] = [(''en'', 2)] \<and>
   parse_csv_data [[''key'', '''', ''fr'', ''en''], [''a'', ''p'', ''un'', ''hello'']] =
     Inr [(''a'', [(''en'', ''un'')])] \<and>
   files (snd (generate_json_files {} {} [(''a'', [(''en'', ''un'')])] empty_state))
     ''lib/l10n/intl_en.arb'' = Some (Complete [(''a'', ''un'')])"
  by (simp add: eval_defs emit_defs)

end
